theory Spec2Isabelle
  imports Main
begin

section \<open>The signal callback of main.c\<close>

text \<open>
  \<^verbatim>\<open>handle_signal_cb\<close> (main.c, lines 78-101) is registered for SIGINT and SIGTERM.
  It keeps one static counter, \<^verbatim>\<open>got_sigint\<close>, and otherwise only calls collaborators:
  \<^verbatim>\<open>close_all_listeners()\<close>, \<^verbatim>\<open>log_notice(...)\<close> and \<^verbatim>\<open>start_shutdown(barbaric)\<close>.
  The model threads the counter and the chronological list of collaborator calls.
  Signal numbers are the POSIX values of \<^verbatim>\<open>signal.h\<close>.
\<close>

definition SIGINT :: int where
  "SIGINT = 2"

definition SIGTERM :: int where
  "SIGTERM = 15"

datatype call =
    Close_all_listeners
  | Log_notice string
  | Start_shutdown int

record signal_state =
  got_sigint :: int
  calls :: "call list"

definition invoke :: "call \<Rightarrow> signal_state \<Rightarrow> signal_state" where
  "invoke c s = s\<lparr>calls := calls s @ [c]\<rparr>"

text \<open>
  The body of the callback. \<^verbatim>\<open>got_sigint++\<close> is only reached when the counter is 0, so
  the C int never overflows. A signal number other than the two cases falls through the
  switch.
\<close>

definition handle_signal_cb :: "int \<Rightarrow> signal_state \<Rightarrow> signal_state" where
  "handle_signal_cb signum s =
     (if signum = SIGINT then
        (let s1 = invoke Close_all_listeners s in
         if got_sigint s1 = 0 then
           (let s2 = invoke (Log_notice ''Got SIGINT. Preparing shutdown.'') s1;
                s3 = invoke (Start_shutdown 0) s2
            in s3\<lparr>got_sigint := got_sigint s3 + 1\<rparr>)
         else
           (let s2 = invoke (Log_notice ''Got SIGINT for the second time. Terminating.'') s1
            in invoke (Start_shutdown 1) s2))
      else if signum = SIGTERM then
        (let s1 = invoke (Log_notice ''Got SIGTERM. Terminating.'') s
         in invoke (Start_shutdown 1) s1)
      else s)"

text \<open>The static initialiser \<^verbatim>\<open>got_sigint=0\<close>, before any collaborator call.\<close>

definition initial_signal_state :: signal_state where
  "initial_signal_state = \<lparr>got_sigint = 0, calls = []\<rparr>"

text \<open>The reactor runs the callback once per delivered signal, never overlapping.\<close>

fun deliver :: "int list \<Rightarrow> signal_state \<Rightarrow> signal_state" where
  "deliver [] s = s"
| "deliver (signum # rest) s = deliver rest (handle_signal_cb signum s)"

subsection \<open>The shutdown phase read off the callback's state\<close>

text \<open>
  main.c has no variable for the phase of the shutdown: it is determined by the counter
  and by the directives already issued. An immediate shutdown has been requested once
  \<^verbatim>\<open>start_shutdown\<close> was called with a non-zero argument; otherwise the process is
  draining once the first SIGINT was counted.
\<close>

datatype ShutdownState = Running | Draining | Terminating

fun immediate :: "call \<Rightarrow> bool" where
  "immediate (Start_shutdown barbaric) = (barbaric \<noteq> 0)"
| "immediate _ = False"

fun graceful :: "call \<Rightarrow> bool" where
  "graceful (Start_shutdown barbaric) = (barbaric = 0)"
| "graceful _ = False"

definition shutdown_state :: "signal_state \<Rightarrow> ShutdownState" where
  "shutdown_state s =
     (if list_ex immediate (calls s) then Terminating
      else if got_sigint s \<noteq> 0 then Draining
      else Running)"

text \<open>The transitions the specification allows: forward, or staying in place.\<close>

fun forward :: "ShutdownState \<Rightarrow> ShutdownState \<Rightarrow> bool" where
  "forward Running _ = True"
| "forward Draining Running = False"
| "forward Draining _ = True"
| "forward Terminating Terminating = True"
| "forward Terminating _ = False"

text \<open>The phases a run passes through, the starting phase first.\<close>

fun phases :: "int list \<Rightarrow> signal_state \<Rightarrow> ShutdownState list" where
  "phases [] s = [shutdown_state s]"
| "phases (signum # rest) s = shutdown_state s # phases rest (handle_signal_cb signum s)"

fun monotonic :: "ShutdownState list \<Rightarrow> bool" where
  "monotonic (p # q # rest) = (forward p q \<and> monotonic (q # rest))"
| "monotonic _ = True"

text \<open>
  Modelled from the spec: \<^verbatim>\<open>start_shutdown\<close> is defined in network.c, which is not among
  the sources. Section 4.5 says of it: a graceful shutdown leaves \<^verbatim>\<open>requestExit()\<close> to the
  network collaborator, which calls it once the last connection has closed; an immediate
  shutdown calls \<^verbatim>\<open>requestExit()\<close> unconditionally. The function counts the
  \<^verbatim>\<open>requestExit()\<close> calls made inside the directives of a call list.
\<close>

fun request_exit_calls :: "call list \<Rightarrow> nat" where
  "request_exit_calls [] = 0"
| "request_exit_calls (Start_shutdown barbaric # cs) =
     (if barbaric \<noteq> 0 then 1 else 0) + request_exit_calls cs"
| "request_exit_calls (_ # cs) = request_exit_calls cs"

section \<open>The protocol registry lookup\<close>

text \<open>
  \<^verbatim>\<open>is_supported_protocol\<close> (main.c, lines 121-130) scans the table
  \<^verbatim>\<open>supported_protocols\<close> of protocol.c, which is not among the sources: the table is
  a parameter, \<^verbatim>\<open>n_supported_protocols\<close> is its length, and of a descriptor only the
  field \<^verbatim>\<open>name\<close> is read. \<^verbatim>\<open>strcmp\<close> returns 0 exactly for equal strings.
\<close>

record protocol_vtable =
  name :: string

definition strcmp_is_0 :: "string \<Rightarrow> string \<Rightarrow> bool" where
  "strcmp_is_0 s t = (s = t)"

fun is_supported_protocol :: "protocol_vtable list \<Rightarrow> string \<Rightarrow> int" where
  "is_supported_protocol [] nm = 0"
| "is_supported_protocol (p # ps) nm =
     (if strcmp_is_0 nm (name p) then 1 else is_supported_protocol ps nm)"

section \<open>The argument dispatcher of main.c\<close>

text \<open>
  The entries of \<^verbatim>\<open>argv\<close> are C strings: the characters before the terminating NUL,
  none of which is NUL. \<^verbatim>\<open>strncmp(s, t, n)\<close> compares at most \<^verbatim>\<open>n\<close> characters and
  stops after a NUL, so it returns 0 exactly when the two strings, terminator included,
  agree on their first \<^verbatim>\<open>n\<close> characters.
\<close>

definition strncmp_is_0 :: "string \<Rightarrow> string \<Rightarrow> nat \<Rightarrow> bool" where
  "strncmp_is_0 s t n = (take n (s @ [CHR 0x00]) = take n (t @ [CHR 0x00]))"

text \<open>
  The logging collaborator (util.c) is not among the sources. The dispatcher hands it a
  method, with a file name for \<^verbatim>\<open>LOG_METHOD_FILE\<close> and \<^verbatim>\<open>NULL\<close> for
  \<^verbatim>\<open>LOG_METHOD_NULL\<close>; \<^verbatim>\<open>LOG_METHOD_DEFAULT\<close> stands for whatever destination the
  collaborator starts with.
\<close>

datatype log_method = LOG_METHOD_DEFAULT | LOG_METHOD_FILE string | LOG_METHOD_NULL

text \<open>
  The collaborators the dispatcher and \<^verbatim>\<open>obfs_main\<close> call, by the value each call
  returns (negative on failure).
\<close>

record collaborators =
  log_set_method :: "log_method \<Rightarrow> int"
  log_set_min_severity :: "string \<Rightarrow> int"
  launch_external_proxy :: "string list \<Rightarrow> int"
  launch_managed_proxy :: int

text \<open>
  The ways the dispatcher ends the process. The first five are calls of
  \<^verbatim>\<open>log_error\<close>, the other four a \<^verbatim>\<open>printf\<close> followed by \<^verbatim>\<open>exit(1)\<close>.
\<close>

datatype error =
    Log_file_already_set
  | Failed_creating_logfile
  | Severity_already_set
  | Error_setting_severity
  | Unrecognizable string
  | No_log_severity_already_set
  | No_log_failed
  | Managed_can_only_log_to_file
  | Managed_null_log_failed



text \<open>
  The globals \<^verbatim>\<open>is_external_proxy\<close> and \<^verbatim>\<open>safe_logging\<close>, what the logging
  collaborator was last told, and the locals of \<^verbatim>\<open>handle_obfsproxy_args\<close>
  (the index \<^verbatim>\<open>i\<close> is the field \<open>argi\<close>).
\<close>

record dispatch_state =
  is_external_proxy :: int
  safe_logging :: int
  logging_method :: log_method
  logging_min_severity :: "string option"
  logfile_set :: int
  logsev_set :: int
  argi :: nat

text \<open>The static initialisers of main.c, with the locals as the dispatcher sets them.\<close>

definition startup :: dispatch_state where
  "startup =
     \<lparr>is_external_proxy = 1, safe_logging = 1, logging_method = LOG_METHOD_DEFAULT,
      logging_min_severity = None, logfile_set = 0, logsev_set = 0, argi = 1\<rparr>"

text \<open>
  The body of the while loop (main.c, lines 149-180) for the argument \<open>a\<close>, without the
  final \<^verbatim>\<open>i++\<close>. \<^verbatim>\<open>argv[i]+11\<close> is the argument without its first 11 characters.
\<close>

definition handle_arg :: "collaborators \<Rightarrow> string \<Rightarrow> dispatch_state \<Rightarrow> error + dispatch_state" where
  "handle_arg env a st =
     (if strncmp_is_0 a ''--log-file='' 11 then
        (if logfile_set st \<noteq> 0 then Inl Log_file_already_set
         else if log_set_method env (LOG_METHOD_FILE (drop 11 a)) < 0
           then Inl Failed_creating_logfile
         else Inr (st\<lparr>logging_method := LOG_METHOD_FILE (drop 11 a), logfile_set := 1\<rparr>))
      else if strncmp_is_0 a ''--log-min-severity='' 19 then
        (if logsev_set st \<noteq> 0 then Inl Severity_already_set
         else if log_set_min_severity env (drop 19 a) < 0 then Inl Error_setting_severity
         else Inr (st\<lparr>logging_min_severity := Some (drop 19 a), logsev_set := 1\<rparr>))
      else if strncmp_is_0 a ''--no-log'' 9 then
        (if logsev_set st \<noteq> 0 then Inl No_log_severity_already_set
         else if log_set_method env LOG_METHOD_NULL < 0 then Inl No_log_failed
         else Inr (st\<lparr>logging_method := LOG_METHOD_NULL, logsev_set := 1\<rparr>))
      else if strncmp_is_0 a ''--no-safe-logging'' 18 then Inr (st\<lparr>safe_logging := 0\<rparr>)
      else if strncmp_is_0 a ''--managed'' 10 then Inr (st\<lparr>is_external_proxy := 0\<rparr>)
      else Inl (Unrecognizable a))"

text \<open>
  The while loop over \<^verbatim>\<open>argv[i], argv[i+1], ...\<close>: the list is what remains of
  \<^verbatim>\<open>argv\<close> from index \<^verbatim>\<open>i\<close> on, and the empty list is the terminating \<^verbatim>\<open>NULL\<close>.
\<close>

fun scan_args :: "collaborators \<Rightarrow> string list \<Rightarrow> dispatch_state \<Rightarrow> error + dispatch_state" where
  "scan_args env [] st = Inr st"
| "scan_args env (a # rest) st =
     (if strncmp_is_0 a ''--'' 2 then
        (case handle_arg env a st of
           Inl e \<Rightarrow> Inl e
         | Inr st' \<Rightarrow> scan_args env rest (st'\<lparr>argi := argi st' + 1\<rparr>))
      else Inr st)"

text \<open>
  \<^verbatim>\<open>handle_obfsproxy_args\<close> (main.c, lines 140-197), run on the globals \<open>g\<close>. The
  program name \<^verbatim>\<open>argv[0]\<close> is skipped, and \<^verbatim>\<open>argv\<close> is taken to hold it: the
  statements below are about \<open>prog # args\<close>. The value the C function returns is the
  field \<open>argi\<close> of the result.
\<close>

definition handle_obfsproxy_args ::
    "collaborators \<Rightarrow> dispatch_state \<Rightarrow> string list \<Rightarrow> error + dispatch_state" where
  "handle_obfsproxy_args env g argv =
     (case scan_args env (drop 1 argv) (g\<lparr>logfile_set := 0, logsev_set := 0, argi := 1\<rparr>) of
        Inl e \<Rightarrow> Inl e
      | Inr st \<Rightarrow>
          if is_external_proxy st = 0 \<and> logfile_set st = 0 \<and> logsev_set st \<noteq> 0
            then Inl Managed_can_only_log_to_file
          else if is_external_proxy st = 0 \<and> logfile_set st = 0 then
            (if log_set_method env LOG_METHOD_NULL < 0 then Inl Managed_null_log_failed
             else Inr (st\<lparr>logging_method := LOG_METHOD_NULL\<rparr>))
          else Inr st)"

text \<open>
  \<^verbatim>\<open>obfs_main\<close> (main.c, lines 286-304): either the process has exited inside the
  dispatcher, before any launcher ran, or one launcher was called and \<^verbatim>\<open>obfs_main\<close>
  returned 1 or 0. The subsystems are brought up by the launchers. The call
  \<^verbatim>\<open>log_notice("Starting.")\<close> has no part in the result and is left out.
\<close>

datatype ProxyMode = External "string list" | Managed

datatype outcome = Exited error | Returned int ProxyMode dispatch_state

definition obfs_main :: "collaborators \<Rightarrow> string list \<Rightarrow> outcome" where
  "obfs_main env argv =
     (case handle_obfsproxy_args env startup argv of
        Inl e \<Rightarrow> Exited e
      | Inr st \<Rightarrow>
          (let remainder = drop (argi st) argv in
           if is_external_proxy st \<noteq> 0 then
             Returned (if launch_external_proxy env remainder < 0 then 1 else 0)
               (External remainder) st
           else
             Returned (if launch_managed_proxy env < 0 then 1 else 0) Managed st))"

subsection \<open>Vocabulary for statements about argument sequences\<close>

definition option_marker :: "string \<Rightarrow> bool" where
  "option_marker a = strncmp_is_0 a ''--'' 2"

definition option_prefix :: "string list \<Rightarrow> string list" where
  "option_prefix args = takeWhile option_marker args"

definition sets_log_file :: "string \<Rightarrow> bool" where
  "sets_log_file a = strncmp_is_0 a ''--log-file='' 11"

definition sets_severity :: "string \<Rightarrow> bool" where
  "sets_severity a =
     (strncmp_is_0 a ''--log-min-severity='' 19 \<or> strncmp_is_0 a ''--no-log'' 9)"

definition selects_managed :: "string \<Rightarrow> bool" where
  "selects_managed a = strncmp_is_0 a ''--managed'' 10"

text \<open>An option the dispatcher takes when it is the first one it sees.\<close>

definition acceptable :: "collaborators \<Rightarrow> string \<Rightarrow> bool" where
  "acceptable env a = (case handle_arg env a startup of Inl e \<Rightarrow> False | Inr st \<Rightarrow> True)"


text \<open>Collaborators none of whose calls fails, for concrete runs.\<close>

definition willing :: collaborators where
  "willing =
     \<lparr>log_set_method = (\<lambda>m. 0), log_set_min_severity = (\<lambda>s. 0),
      launch_external_proxy = (\<lambda>remainder. 0), launch_managed_proxy = 0\<rparr>"

section \<open>Properties of the signal callback\<close>

lemma request_exit_calls_append:
  "request_exit_calls (cs @ ds) = request_exit_calls cs + request_exit_calls ds"
  by (induction cs rule: request_exit_calls.induct) simp_all

lemma handle_sigterm:
  "handle_signal_cb SIGTERM s =
     s\<lparr>calls := calls s @ [Log_notice ''Got SIGTERM. Terminating.'', Start_shutdown 1]\<rparr>"
  by (simp add: handle_signal_cb_def invoke_def SIGINT_def SIGTERM_def)

lemma handle_sigint_first:
  "got_sigint s = 0 \<Longrightarrow>
   handle_signal_cb SIGINT s =
     s\<lparr>calls := calls s @ [Close_all_listeners, Log_notice ''Got SIGINT. Preparing shutdown.'',
                           Start_shutdown 0],
       got_sigint := 1\<rparr>"
  by (simp add: handle_signal_cb_def invoke_def Let_def)

lemma handle_sigint_again:
  "got_sigint s \<noteq> 0 \<Longrightarrow>
   handle_signal_cb SIGINT s =
     s\<lparr>calls := calls s @ [Close_all_listeners,
                           Log_notice ''Got SIGINT for the second time. Terminating.'',
                           Start_shutdown 1]\<rparr>"
  by (simp add: handle_signal_cb_def invoke_def Let_def)

lemma handle_other:
  "signum \<noteq> SIGINT \<Longrightarrow> signum \<noteq> SIGTERM \<Longrightarrow> handle_signal_cb signum s = s"
  by (simp add: handle_signal_cb_def)

lemma forward_step: "forward (shutdown_state s) (shutdown_state (handle_signal_cb signum s))"
proof -
  consider (int0) "signum = SIGINT" "got_sigint s = 0"
    | (int1) "signum = SIGINT" "got_sigint s \<noteq> 0"
    | (sigterm) "signum = SIGTERM"
    | (other) "signum \<noteq> SIGINT" "signum \<noteq> SIGTERM"
    by blast
  then show ?thesis
  proof cases
    case int0
    then show ?thesis by (simp add: handle_sigint_first shutdown_state_def)
  next
    case int1
    then show ?thesis by (simp add: handle_sigint_again shutdown_state_def)
  next
    case sigterm
    then show ?thesis by (simp add: handle_sigterm shutdown_state_def)
  next
    case other
    then show ?thesis by (cases "shutdown_state s") (simp_all add: handle_other)
  qed
qed

lemma phases_start: "\<exists>ps. phases sigs s = shutdown_state s # ps"
  by (cases sigs) simp_all

lemma monotonic_phases: "monotonic (phases sigs s)"
proof (induction sigs arbitrary: s)
  case Nil
  show ?case by simp
next
  case (Cons signum rest)
  obtain ps where ps: "phases rest (handle_signal_cb signum s) = shutdown_state (handle_signal_cb signum s) # ps"
    using phases_start by blast
  have "monotonic (phases rest (handle_signal_cb signum s))" by (rule Cons.IH)
  with ps show ?case by (simp add: forward_step)
qed

lemma terminating_step:
  "shutdown_state s = Terminating \<Longrightarrow> shutdown_state (handle_signal_cb signum s) = Terminating"
  using forward_step [of s signum] by (cases "shutdown_state (handle_signal_cb signum s)") simp_all

lemma terminating_deliver:
  "shutdown_state s = Terminating \<Longrightarrow> shutdown_state (deliver sigs s) = Terminating"
  by (induction sigs arbitrary: s) (simp_all add: terminating_step)

lemma graceful_after_sigint:
  "got_sigint s \<noteq> 0 \<Longrightarrow>
   got_sigint (handle_signal_cb signum s) \<noteq> 0
   \<and> filter graceful (calls (handle_signal_cb signum s)) = filter graceful (calls s)"
  by (cases "signum = SIGINT"; cases "signum = SIGTERM")
     (simp_all add: handle_sigint_again handle_sigterm handle_other)

lemma graceful_after_sigint_deliver:
  "got_sigint s \<noteq> 0 \<Longrightarrow>
   filter graceful (calls (deliver sigs s)) = filter graceful (calls s)"
proof (induction sigs arbitrary: s)
  case Nil
  show ?case by simp
next
  case (Cons signum rest)
  from graceful_after_sigint [OF Cons.prems, of signum] Cons.IH [of "handle_signal_cb signum s"]
  show ?case by simp
qed

lemma graceful_before_sigint:
  "got_sigint s = 0 \<Longrightarrow>
   length (filter graceful (calls (deliver sigs s))) \<le> Suc (length (filter graceful (calls s)))"
proof (induction sigs arbitrary: s)
  case Nil
  show ?case by simp
next
  case (Cons signum rest)
  consider (int0) "signum = SIGINT"
    | (sigterm) "signum = SIGTERM"
    | (other) "signum \<noteq> SIGINT" "signum \<noteq> SIGTERM"
    by blast
  then show ?case
  proof cases
    case int0
    have "got_sigint (handle_signal_cb SIGINT s) \<noteq> 0"
      using Cons.prems by (simp add: handle_sigint_first)
    from graceful_after_sigint_deliver [OF this, of rest] Cons.prems int0
    show ?thesis by (simp add: handle_sigint_first)
  next
    case sigterm
    have "got_sigint (handle_signal_cb SIGTERM s) = 0"
      using Cons.prems by (simp add: handle_sigterm)
    from Cons.IH [OF this] sigterm show ?thesis by (simp add: handle_sigterm)
  next
    case other
    with Cons.IH [of s] Cons.prems show ?thesis by (simp add: handle_other)
  qed
qed

text \<open>
  C1 (as amended). On SIGTERM, whatever the phase (Running and Draining included), the
  callback logs a notice and requests the immediate shutdown with
  \<^verbatim>\<open>start_shutdown(1)\<close>, under which \<^verbatim>\<open>requestExit()\<close> is called once, and the phase
  afterwards is Terminating. It makes no other call, so it does not close the listeners
  itself, and it leaves the counter alone.
\<close>

theorem sigterm_requests_immediate_shutdown:
  "calls (handle_signal_cb SIGTERM s) =
     calls s @ [Log_notice ''Got SIGTERM. Terminating.'', Start_shutdown 1]
   \<and> got_sigint (handle_signal_cb SIGTERM s) = got_sigint s
   \<and> request_exit_calls (calls (handle_signal_cb SIGTERM s)) = request_exit_calls (calls s) + 1
   \<and> shutdown_state (handle_signal_cb SIGTERM s) = Terminating"
  by (simp add: handle_sigterm shutdown_state_def request_exit_calls_append)

text \<open>
  C1 as stated fails: a SIGTERM delivered to the running process does not call
  \<^verbatim>\<open>close_all_listeners\<close>.
\<close>

theorem sigterm_closes_no_listener:
  "shutdown_state initial_signal_state = Running
   \<and> calls (handle_signal_cb SIGTERM initial_signal_state) =
       [Log_notice ''Got SIGTERM. Terminating.'', Start_shutdown 1]
   \<and> Close_all_listeners \<notin> set (calls (handle_signal_cb SIGTERM initial_signal_state))"
  by (simp add: handle_sigterm shutdown_state_def initial_signal_state_def)

text \<open>
  C2 (as amended). Once the phase is Terminating it stays Terminating under every
  further sequence of signals. The signals are not no-ops, though, since the callback
  has no guard for that phase: a further SIGTERM issues the immediate directive again,
  and a further SIGINT calls \<^verbatim>\<open>close_all_listeners\<close> again and then issues the graceful
  directive if no SIGINT was counted before, the immediate directive otherwise.
\<close>

theorem terminating_persists_but_signals_act:
  assumes "shutdown_state s = Terminating"
  shows "shutdown_state (deliver sigs s) = Terminating
   \<and> calls (handle_signal_cb SIGTERM s) =
       calls s @ [Log_notice ''Got SIGTERM. Terminating.'', Start_shutdown 1]
   \<and> calls (handle_signal_cb SIGINT s) =
       calls s @ [Close_all_listeners,
                  Log_notice (if got_sigint s = 0 then ''Got SIGINT. Preparing shutdown.''
                              else ''Got SIGINT for the second time. Terminating.''),
                  Start_shutdown (if got_sigint s = 0 then 0 else 1)]"
  using assms
  by (simp add: terminating_deliver handle_sigterm handle_sigint_first handle_sigint_again)

theorem terminating_persists_but_signals_act_witness:
  "shutdown_state (deliver [SIGTERM] initial_signal_state) = Terminating
   \<and> shutdown_state (deliver [SIGINT, SIGTERM, SIGINT] (deliver [SIGTERM] initial_signal_state))
       = Terminating
   \<and> calls (handle_signal_cb SIGINT (deliver [SIGTERM] initial_signal_state)) =
       [Log_notice ''Got SIGTERM. Terminating.'', Start_shutdown 1,
        Close_all_listeners, Log_notice ''Got SIGINT. Preparing shutdown.'', Start_shutdown 0]"
proof -
  have t: "shutdown_state (deliver [SIGTERM] initial_signal_state) = Terminating"
    by (simp add: handle_sigterm shutdown_state_def initial_signal_state_def)
  have c: "calls (deliver [SIGTERM] initial_signal_state) =
             [Log_notice ''Got SIGTERM. Terminating.'', Start_shutdown 1]"
    and g: "got_sigint (deliver [SIGTERM] initial_signal_state) = 0"
    by (simp_all add: handle_sigterm initial_signal_state_def)
  note w = terminating_persists_but_signals_act [OF t, of "[SIGINT, SIGTERM, SIGINT]"]
  from w have "calls (handle_signal_cb SIGINT (deliver [SIGTERM] initial_signal_state)) =
       [Log_notice ''Got SIGTERM. Terminating.'', Start_shutdown 1,
        Close_all_listeners, Log_notice ''Got SIGINT. Preparing shutdown.'', Start_shutdown 0]"
    unfolding c g by simp
  with t w show ?thesis by blast
qed

text \<open>
  C2 as stated fails: after a SIGTERM has made the phase Terminating, a SIGINT still
  closes the listeners and issues a shutdown directive, and a second SIGTERM issues the
  immediate directive once more.
\<close>

theorem signal_after_sigterm_is_not_a_noop:
  "shutdown_state (deliver [SIGTERM] initial_signal_state) = Terminating
   \<and> calls (deliver [SIGTERM] initial_signal_state) =
       [Log_notice ''Got SIGTERM. Terminating.'', Start_shutdown 1]
   \<and> calls (deliver [SIGTERM, SIGINT] initial_signal_state) =
       [Log_notice ''Got SIGTERM. Terminating.'', Start_shutdown 1,
        Close_all_listeners, Log_notice ''Got SIGINT. Preparing shutdown.'', Start_shutdown 0]
   \<and> calls (deliver [SIGTERM, SIGTERM] initial_signal_state) =
       [Log_notice ''Got SIGTERM. Terminating.'', Start_shutdown 1,
        Log_notice ''Got SIGTERM. Terminating.'', Start_shutdown 1]"
  by (simp add: handle_sigterm handle_sigint_first shutdown_state_def initial_signal_state_def)

text \<open>
  C3 (as amended). From every state and for every sequence of signals the phases of
  the run only move forward (Running to Draining, Running to Terminating, Draining to
  Terminating) or stay; and a run of the process issues the graceful directive at most
  once. The order of the directives is not protected in the same way: the first SIGINT
  issues the graceful one even when a SIGTERM has already requested the immediate
  shutdown.
\<close>

theorem phases_only_move_forward:
  "monotonic (phases sigs s)
   \<and> length (filter graceful (calls (deliver sigs initial_signal_state))) \<le> 1"
  using monotonic_phases [of sigs s] graceful_before_sigint [of initial_signal_state sigs]
  by (simp add: initial_signal_state_def)

text \<open>
  C3 as stated fails: SIGTERM followed by SIGINT issues the graceful directive
  \<^verbatim>\<open>start_shutdown(0)\<close> after the immediate directive \<^verbatim>\<open>start_shutdown(1)\<close>.
\<close>

theorem graceful_directive_after_immediate:
  "calls (deliver [SIGTERM, SIGINT] initial_signal_state) =
     [Log_notice ''Got SIGTERM. Terminating.'', Start_shutdown 1,
      Close_all_listeners, Log_notice ''Got SIGINT. Preparing shutdown.'', Start_shutdown 0]
   \<and> immediate (Start_shutdown 1) \<and> graceful (Start_shutdown 0)"
  by (simp add: handle_sigterm handle_sigint_first initial_signal_state_def)

text \<open>
  C4. One SIGINT delivered to the freshly started process leaves it Draining, with
  \<^verbatim>\<open>close_all_listeners\<close> called exactly once, the graceful directive issued and no
  \<^verbatim>\<open>requestExit()\<close>; two SIGINTs leave it Terminating with exactly one
  \<^verbatim>\<open>requestExit()\<close>, made by the second one.
\<close>

theorem first_and_second_sigint:
  "shutdown_state (deliver [SIGINT] initial_signal_state) = Draining
   \<and> count_list (calls (deliver [SIGINT] initial_signal_state)) Close_all_listeners = 1
   \<and> calls (deliver [SIGINT] initial_signal_state) =
        [Close_all_listeners, Log_notice ''Got SIGINT. Preparing shutdown.'', Start_shutdown 0]
   \<and> request_exit_calls (calls (deliver [SIGINT] initial_signal_state)) = 0
   \<and> shutdown_state (deliver [SIGINT, SIGINT] initial_signal_state) = Terminating
   \<and> request_exit_calls (calls (deliver [SIGINT, SIGINT] initial_signal_state)) = 1
   \<and> calls (deliver [SIGINT, SIGINT] initial_signal_state) =
        calls (deliver [SIGINT] initial_signal_state)
        @ [Close_all_listeners, Log_notice ''Got SIGINT for the second time. Terminating.'',
           Start_shutdown 1]"
  by (simp add: handle_signal_cb_def invoke_def initial_signal_state_def shutdown_state_def
      SIGINT_def Let_def)

section \<open>Properties of the argument dispatcher\<close>

lemma strncmp_distinct:
  assumes "strncmp_is_0 a s n" and "strncmp_is_0 a t m"
    and "k \<le> n" and "k \<le> m"
  shows "take k (s @ [CHR 0x00]) = take k (t @ [CHR 0x00])"
proof -
  have "take k (take n (a @ [CHR 0x00])) = take k (take m (a @ [CHR 0x00]))"
    using assms(3,4) by (simp add: min_def)
  with assms(1,2) show ?thesis
    by (simp only: strncmp_is_0_def take_take) (simp add: min_def assms(3,4))
qed

lemma log_file_not_severity: "sets_log_file a \<Longrightarrow> \<not> sets_severity a"
  unfolding sets_log_file_def sets_severity_def
  using strncmp_distinct [of a "''--log-file=''" 11 "''--log-min-severity=''" 19 7]
        strncmp_distinct [of a "''--log-file=''" 11 "''--no-log''" 9 3]
  by auto

lemma managed_not_log_file: "selects_managed a \<Longrightarrow> \<not> sets_log_file a"
  unfolding sets_log_file_def selects_managed_def
  using strncmp_distinct [of a "''--managed''" 10 "''--log-file=''" 11 3]
  by auto

lemma managed_not_severity: "selects_managed a \<Longrightarrow> \<not> sets_severity a"
  unfolding sets_severity_def selects_managed_def
  using strncmp_distinct [of a "''--managed''" 10 "''--log-min-severity=''" 19 3]
        strncmp_distinct [of a "''--managed''" 10 "''--no-log''" 9 3]
  by auto

lemma managed_not_no_safe_logging:
  "selects_managed a \<Longrightarrow> \<not> strncmp_is_0 a ''--no-safe-logging'' 18"
  unfolding selects_managed_def
  using strncmp_distinct [of a "''--managed''" 10 "''--no-safe-logging''" 18 3]
  by auto

lemma option_marker_iff: "option_marker a = (take 2 a = ''--'')"
proof (cases a)
  case Nil
  then show ?thesis by (simp add: option_marker_def strncmp_is_0_def)
next
  case (Cons c cs)
  then show ?thesis by (cases cs) (auto simp: option_marker_def strncmp_is_0_def)
qed

text \<open>What one pass of the loop body does to the flags.\<close>

lemma handle_arg_flags:
  assumes "handle_arg env a st = Inr st'"
  shows "logfile_set st' = (if sets_log_file a then 1 else logfile_set st)"
    and "sets_log_file a \<Longrightarrow> logfile_set st = 0"
    and "logsev_set st' = (if sets_severity a then 1 else logsev_set st)"
    and "sets_severity a \<Longrightarrow> logsev_set st = 0"
    and "is_external_proxy st' = (if selects_managed a then 0 else is_external_proxy st)"
    and "argi st' = argi st"
  using assms log_file_not_severity [of a] managed_not_log_file [of a]
    managed_not_severity [of a] managed_not_no_safe_logging [of a]
  by (auto simp: handle_arg_def sets_log_file_def sets_severity_def selects_managed_def
      split: if_splits)


lemma scan_args_prefix: "scan_args env args st = scan_args env (takeWhile option_marker args) st"
proof (induction args arbitrary: st)
  case Nil
  show ?case by simp
next
  case (Cons a rest)
  show ?case
  proof (cases "option_marker a")
    case True
    then show ?thesis
      using Cons.IH by (simp add: option_marker_def split: sum.splits)
  next
    case False
    then show ?thesis by (simp add: option_marker_def)
  qed
qed

text \<open>One step of the loop on an option, as far as a successful scan is concerned.\<close>

lemma scan_args_option:
  assumes "option_marker a" and "scan_args env (a # rest) st = Inr st'"
  obtains st1 where "handle_arg env a st = Inr st1"
    and "scan_args env rest (st1\<lparr>argi := argi st1 + 1\<rparr>) = Inr st'"
  using assms by (auto simp: option_marker_def split: sum.splits)

lemma scan_args_argi:
  "scan_args env args st = Inr st' \<Longrightarrow>
   argi st' = argi st + length (takeWhile option_marker args)"
proof (induction args arbitrary: st)
  case Nil
  then show ?case by simp
next
  case (Cons a rest)
  show ?case
  proof (cases "option_marker a")
    case True
    from True Cons.prems obtain st1 where
      h: "handle_arg env a st = Inr st1" and
      r: "scan_args env rest (st1\<lparr>argi := argi st1 + 1\<rparr>) = Inr st'"
      by (rule scan_args_option)
    from Cons.IH [OF r] handle_arg_flags(6) [OF h] True show ?thesis by simp
  next
    case False
    with Cons.prems show ?thesis by (simp add: option_marker_def)
  qed
qed

lemma scan_args_flags:
  "scan_args env args st = Inr st' \<Longrightarrow>
   length (filter sets_log_file (takeWhile option_marker args))
      \<le> (if logfile_set st = 0 then 1 else 0)
   \<and> length (filter sets_severity (takeWhile option_marker args))
      \<le> (if logsev_set st = 0 then 1 else 0)
   \<and> logfile_set st' =
      (if \<exists>a\<in>set (takeWhile option_marker args). sets_log_file a then 1 else logfile_set st)
   \<and> logsev_set st' =
      (if \<exists>a\<in>set (takeWhile option_marker args). sets_severity a then 1 else logsev_set st)
   \<and> is_external_proxy st' =
      (if \<exists>a\<in>set (takeWhile option_marker args). selects_managed a then 0
       else is_external_proxy st)"
proof (induction args arbitrary: st)
  case Nil
  then show ?case by simp
next
  case (Cons a rest)
  show ?case
  proof (cases "option_marker a")
    case True
    from True Cons.prems obtain st1 where
      h: "handle_arg env a st = Inr st1" and
      r: "scan_args env rest (st1\<lparr>argi := argi st1 + 1\<rparr>) = Inr st'"
      by (rule scan_args_option)
    note f = handle_arg_flags [OF h]
    from Cons.IH [OF r] f(1,3,5) f(2) f(4) True show ?thesis
      by (auto split: if_splits)
  next
    case False
    with Cons.prems show ?thesis by (simp add: option_marker_def)
  qed
qed


lemma handle_arg_acceptable_success:
  "acceptable env a \<Longrightarrow> (sets_log_file a \<Longrightarrow> logfile_set st = 0) \<Longrightarrow>
   (sets_severity a \<Longrightarrow> logsev_set st = 0) \<Longrightarrow> \<exists>st'. handle_arg env a st = Inr st'"
  by (auto simp: acceptable_def handle_arg_def startup_def sets_log_file_def sets_severity_def
      split: if_splits)


lemma scan_args_acceptable_success:
  "\<forall>a\<in>set (takeWhile option_marker args). acceptable env a \<Longrightarrow>
   length (filter sets_log_file (takeWhile option_marker args))
      \<le> (if logfile_set st = 0 then 1 else 0) \<Longrightarrow>
   length (filter sets_severity (takeWhile option_marker args))
      \<le> (if logsev_set st = 0 then 1 else 0) \<Longrightarrow>
   \<exists>st'. scan_args env args st = Inr st'"
proof (induction args arbitrary: st)
  case Nil
  show ?case by simp
next
  case (Cons a rest)
  show ?case
  proof (cases "option_marker a")
    case True
    with Cons.prems have acc: "acceptable env a"
      and lf: "sets_log_file a \<Longrightarrow> logfile_set st = 0"
      and sv: "sets_severity a \<Longrightarrow> logsev_set st = 0"
      by (auto split: if_splits)
    from handle_arg_acceptable_success [OF acc lf sv] obtain st1 where
      h: "handle_arg env a st = Inr st1" by blast
    note f = handle_arg_flags [OF h]
    have "\<exists>st'. scan_args env rest (st1\<lparr>argi := argi st1 + 1\<rparr>) = Inr st'"
    proof (rule Cons.IH)
      show "\<forall>a\<in>set (takeWhile option_marker rest). acceptable env a"
        using Cons.prems(1) True by simp
      show "length (filter sets_log_file (takeWhile option_marker rest))
              \<le> (if logfile_set (st1\<lparr>argi := argi st1 + 1\<rparr>) = 0 then 1 else 0)"
        using Cons.prems(2) True f(1) by (auto split: if_splits)
      show "length (filter sets_severity (takeWhile option_marker rest))
              \<le> (if logsev_set (st1\<lparr>argi := argi st1 + 1\<rparr>) = 0 then 1 else 0)"
        using Cons.prems(3) True f(3) by (auto split: if_splits)
    qed
    with h True show ?thesis by (simp add: option_marker_def)
  next
    case False
    then show ?thesis by (simp add: option_marker_def)
  qed
qed


lemma startup_locals: "startup\<lparr>logfile_set := 0, logsev_set := 0, argi := 1\<rparr> = startup"
  by (simp add: startup_def)

lemma handle_obfsproxy_args_startup:
  "handle_obfsproxy_args env startup (prog # args) =
     (case scan_args env args startup of
        Inl e \<Rightarrow> Inl e
      | Inr st \<Rightarrow>
          if is_external_proxy st = 0 \<and> logfile_set st = 0 \<and> logsev_set st \<noteq> 0
            then Inl Managed_can_only_log_to_file
          else if is_external_proxy st = 0 \<and> logfile_set st = 0 then
            (if log_set_method env LOG_METHOD_NULL < 0 then Inl Managed_null_log_failed
             else Inr (st\<lparr>logging_method := LOG_METHOD_NULL\<rparr>))
          else Inr st)"
  unfolding handle_obfsproxy_args_def startup_locals by simp


lemma handle_obfsproxy_args_prefix:
  "handle_obfsproxy_args env g (prog # args) =
   handle_obfsproxy_args env g (prog # option_prefix args)"
proof -
  have eq: "scan_args env (option_prefix args) s = scan_args env args s" for s
    unfolding option_prefix_def by (rule scan_args_prefix [symmetric])
  show ?thesis by (simp add: handle_obfsproxy_args_def eq)
qed

lemma handle_obfsproxy_args_argi:
  assumes "handle_obfsproxy_args env g (prog # args) = Inr st"
  shows "argi st = Suc (length (option_prefix args))"
proof (cases "scan_args env args (g\<lparr>logfile_set := 0, logsev_set := 0, argi := 1\<rparr>)")
  case (Inl e)
  with assms show ?thesis by (simp add: handle_obfsproxy_args_def)
next
  case (Inr st1)
  with assms have "argi st = argi st1"
    by (auto simp: handle_obfsproxy_args_def split: if_splits)
  with scan_args_argi [OF Inr] show ?thesis by (simp add: option_prefix_def)
qed

lemma handle_obfsproxy_args_split:
  assumes "handle_obfsproxy_args env g (prog # args) = Inr st"
  shows "take (argi st) (prog # args) = prog # option_prefix args"
    and "drop (argi st) (prog # args) = dropWhile option_marker args"
  using handle_obfsproxy_args_argi [OF assms]
  by (simp_all add: option_prefix_def takeWhile_eq_take [symmetric] dropWhile_eq_drop [symmetric])

lemma obfs_main_external_remainder:
  assumes "obfs_main env (prog # args) = Returned rc (External remainder) st"
  shows "remainder = dropWhile option_marker args"
proof (cases "handle_obfsproxy_args env startup (prog # args)")
  case (Inl e)
  with assms show ?thesis by (simp add: obfs_main_def)
next
  case (Inr st1)
  with assms have "remainder = drop (argi st1) (prog # args)"
    by (auto simp: obfs_main_def Let_def split: if_splits)
  with handle_obfsproxy_args_split(2) [OF Inr] show ?thesis by simp
qed


lemmas run_defs = obfs_main_def handle_obfsproxy_args_startup handle_arg_def strncmp_is_0_def
  willing_def







text \<open>
  C7 (as amended). When the leading run of options selects the managed mode, holds no
  \<^verbatim>\<open>--log-file=\<close>, no \<^verbatim>\<open>--log-min-severity=\<close> and no \<^verbatim>\<open>--no-log\<close>, each of its options
  being one the dispatcher takes and the logging collaborator accepting the null method,
  the logging method ends as \<^verbatim>\<open>LOG_METHOD_NULL\<close> and the managed launcher is the one
  called; so it is for \<^verbatim>\<open>--managed\<close> alone.
\<close>

theorem managed_without_logging_options:
  assumes "\<exists>a\<in>set (option_prefix args). selects_managed a"
    and "\<forall>a\<in>set (option_prefix args). \<not> sets_log_file a \<and> \<not> sets_severity a"
    and "\<forall>a\<in>set (option_prefix args). acceptable env a"
    and "0 \<le> log_set_method env LOG_METHOD_NULL"
  shows "(\<exists>st. obfs_main env (prog # args) =
              Returned (if launch_managed_proxy env < 0 then 1 else 0) Managed st
            \<and> logging_method st = LOG_METHOD_NULL)
         \<and> obfs_main env [prog, ''--managed''] =
              Returned (if launch_managed_proxy env < 0 then 1 else 0) Managed
                (startup\<lparr>is_external_proxy := 0, argi := 2, logging_method := LOG_METHOD_NULL\<rparr>)"
proof
  from assms(2) have "filter sets_log_file (option_prefix args) = []"
    and "filter sets_severity (option_prefix args) = []"
    by (simp_all add: filter_empty_conv)
  with assms(3) have "\<exists>st'. scan_args env args startup = Inr st'"
    by (intro scan_args_acceptable_success) (simp_all add: option_prefix_def)
  then obtain st where st: "scan_args env args startup = Inr st" ..
  from scan_args_flags [OF st] assms(1,2)
  have "is_external_proxy st = 0" "logfile_set st = 0" "logsev_set st = 0"
    by (simp_all add: option_prefix_def startup_def)
  with st assms(4)
  have "handle_obfsproxy_args env startup (prog # args) = Inr (st\<lparr>logging_method := LOG_METHOD_NULL\<rparr>)"
    by (simp add: handle_obfsproxy_args_startup)
  then have "obfs_main env (prog # args) =
      Returned (if launch_managed_proxy env < 0 then 1 else 0) Managed (st\<lparr>logging_method := LOG_METHOD_NULL\<rparr>)"
    using \<open>is_external_proxy st = 0\<close> by (simp add: obfs_main_def)
  then show "\<exists>st. obfs_main env (prog # args) =
              Returned (if launch_managed_proxy env < 0 then 1 else 0) Managed st
            \<and> logging_method st = LOG_METHOD_NULL"
    by simp
next
  show "obfs_main env [prog, ''--managed''] =
              Returned (if launch_managed_proxy env < 0 then 1 else 0) Managed
                (startup\<lparr>is_external_proxy := 0, argi := 2, logging_method := LOG_METHOD_NULL\<rparr>)"
    using assms(4)
    by (simp add: obfs_main_def handle_obfsproxy_args_def handle_arg_def strncmp_is_0_def
        startup_def)
qed

theorem managed_without_logging_options_witness:
  "(\<exists>a\<in>set (option_prefix [''--managed'']). selects_managed a)
   \<and> 0 \<le> log_set_method willing LOG_METHOD_NULL
   \<and> obfs_main willing [''obfsproxy'', ''--managed''] =
       Returned 0 Managed
         (startup\<lparr>is_external_proxy := 0, argi := 2, logging_method := LOG_METHOD_NULL\<rparr>)"
proof -
  let ?args = "[''--managed'']"
  have p: "option_prefix ?args = ?args"
    by (simp add: option_prefix_def option_marker_def strncmp_is_0_def)
  have h1: "\<exists>a\<in>set (option_prefix ?args). selects_managed a"
    unfolding p by (simp add: selects_managed_def strncmp_is_0_def)
  have h2: "\<forall>a\<in>set (option_prefix ?args). \<not> sets_log_file a \<and> \<not> sets_severity a"
    unfolding p by (simp add: sets_log_file_def sets_severity_def strncmp_is_0_def)
  have h3: "\<forall>a\<in>set (option_prefix ?args). acceptable willing a"
    unfolding p by (simp add: acceptable_def handle_arg_def strncmp_is_0_def)
  have h4: "0 \<le> log_set_method willing LOG_METHOD_NULL"
    by (simp add: willing_def)
  from managed_without_logging_options [OF h1 h2 h3 h4, of "''obfsproxy''"]
  have "obfs_main willing [''obfsproxy'', ''--managed''] =
       Returned 0 Managed
         (startup\<lparr>is_external_proxy := 0, argi := 2, logging_method := LOG_METHOD_NULL\<rparr>)"
    by (simp add: willing_def)
  with h1 h4 show ?thesis by blast
qed

text \<open>
  C7 as stated fails: \<^verbatim>\<open>--managed --no-log\<close> selects the managed mode and names neither
  a log file nor a minimum severity, yet the dispatcher exits with the conflict of the
  managed mode; and \<^verbatim>\<open>--managed --bogus\<close> exits on the unrecognised option. Neither
  run reaches a launcher.
\<close>

theorem managed_without_log_file_or_severity_exits:
  "selects_managed ''--managed''
   \<and> \<not> sets_log_file ''--managed'' \<and> \<not> sets_log_file ''--no-log''
   \<and> \<not> strncmp_is_0 ''--managed'' ''--log-min-severity='' 19
   \<and> \<not> strncmp_is_0 ''--no-log'' ''--log-min-severity='' 19
   \<and> option_prefix [''--managed'', ''--no-log''] = [''--managed'', ''--no-log'']
   \<and> obfs_main willing [''obfsproxy'', ''--managed'', ''--no-log'']
       = Exited Managed_can_only_log_to_file
   \<and> \<not> sets_log_file ''--bogus''
   \<and> \<not> strncmp_is_0 ''--bogus'' ''--log-min-severity='' 19
   \<and> \<not> strncmp_is_0 ''--bogus'' ''--no-log'' 9
   \<and> obfs_main willing [''obfsproxy'', ''--managed'', ''--bogus'']
       = Exited (Unrecognizable ''--bogus'')"
  by (simp add: option_prefix_def option_marker_def sets_log_file_def selects_managed_def
        run_defs;
      simp add: startup_def)

text \<open>
  C8. The dispatcher looks at the leading run of arguments that begin with \<^verbatim>\<open>--\<close>
  and at nothing behind it: its result is the one it gives on that run alone. Whenever
  it returns, the arguments it has consumed are the program name and that run, and what
  it leaves, which the external launcher receives, starts at the first argument that
  does not begin with \<^verbatim>\<open>--\<close> and is unchanged. For \<^verbatim>\<open>obfs2 --dest=1.2.3.4:80\<close> the
  run is empty, the mode is external, and both arguments are left.
\<close>

theorem dispatcher_consumes_leading_options:
  "handle_obfsproxy_args env g (prog # args) = handle_obfsproxy_args env g (prog # option_prefix args)
   \<and> (\<forall>st. handle_obfsproxy_args env g (prog # args) = Inr st \<longrightarrow>
         take (argi st) (prog # args) = prog # option_prefix args
         \<and> drop (argi st) (prog # args) = dropWhile option_marker args)
   \<and> (\<forall>rc remainder st. obfs_main env (prog # args) = Returned rc (External remainder) st \<longrightarrow>
         remainder = dropWhile option_marker args)
   \<and> option_marker a = (take 2 a = ''--'')
   \<and> obfs_main env [prog, ''obfs2'', ''--dest=1.2.3.4:80''] =
       Returned (if launch_external_proxy env [''obfs2'', ''--dest=1.2.3.4:80''] < 0 then 1 else 0)
         (External [''obfs2'', ''--dest=1.2.3.4:80'']) startup"
proof -
  have ex: "obfs_main env [prog, ''obfs2'', ''--dest=1.2.3.4:80''] =
       Returned (if launch_external_proxy env [''obfs2'', ''--dest=1.2.3.4:80''] < 0 then 1 else 0)
         (External [''obfs2'', ''--dest=1.2.3.4:80'']) startup"
    by (simp add: obfs_main_def handle_obfsproxy_args_startup strncmp_is_0_def)
       (simp add: startup_def)
  from handle_obfsproxy_args_prefix [of env g prog args]
    handle_obfsproxy_args_split [of env g prog args]
    obfs_main_external_remainder [of env prog args]
    option_marker_iff [of a] ex
  show ?thesis by blast
qed

theorem dispatcher_consumes_leading_options_witness:
  "handle_obfsproxy_args willing startup
       [''obfsproxy'', ''--no-safe-logging'', ''obfs2'', ''--dest=1.2.3.4:80'']
     = Inr (startup\<lparr>safe_logging := 0, argi := 2\<rparr>)
   \<and> take 2 [''obfsproxy'', ''--no-safe-logging'', ''obfs2'', ''--dest=1.2.3.4:80'']
     = ''obfsproxy'' # option_prefix [''--no-safe-logging'', ''obfs2'', ''--dest=1.2.3.4:80'']
   \<and> dropWhile option_marker [''--no-safe-logging'', ''obfs2'', ''--dest=1.2.3.4:80'']
     = [''obfs2'', ''--dest=1.2.3.4:80'']
   \<and> obfs_main willing [''obfsproxy'', ''--no-safe-logging'', ''obfs2'', ''--dest=1.2.3.4:80'']
     = Returned 0 (External [''obfs2'', ''--dest=1.2.3.4:80''])
         (startup\<lparr>safe_logging := 0, argi := 2\<rparr>)"
proof -
  let ?args = "[''--no-safe-logging'', ''obfs2'', ''--dest=1.2.3.4:80'']"
  have h: "handle_obfsproxy_args willing startup (''obfsproxy'' # ?args)
     = Inr (startup\<lparr>safe_logging := 0, argi := 2\<rparr>)"
    by (simp add: handle_obfsproxy_args_startup handle_arg_def strncmp_is_0_def;
        simp add: startup_def)
  have m: "obfs_main willing (''obfsproxy'' # ?args)
     = Returned 0 (External [''obfs2'', ''--dest=1.2.3.4:80''])
         (startup\<lparr>safe_logging := 0, argi := 2\<rparr>)"
    unfolding obfs_main_def h by (simp add: willing_def Let_def startup_def)
  note w = dispatcher_consumes_leading_options [of willing startup "''obfsproxy''" ?args]
  from w h have "take (argi (startup\<lparr>safe_logging := 0, argi := 2\<rparr>)) (''obfsproxy'' # ?args)
      = ''obfsproxy'' # option_prefix ?args" by blast
  then have t: "take 2 (''obfsproxy'' # ?args) = ''obfsproxy'' # option_prefix ?args"
    by simp
  from w m have d: "[''obfs2'', ''--dest=1.2.3.4:80''] = dropWhile option_marker ?args"
    by blast
  from h t d m show ?thesis by simp
qed

text \<open>
  C10. \<^verbatim>\<open>--no-log\<close> followed by \<^verbatim>\<open>--log-file=<path>\<close> is taken without a conflict
  and the logging method ends as the file, provided the collaborator accepts both
  methods: a later \<^verbatim>\<open>--log-file=\<close> is checked against \<^verbatim>\<open>logfile_set\<close> only. After
  \<^verbatim>\<open>--no-log\<close> a \<^verbatim>\<open>--log-min-severity=\<close> or a second \<^verbatim>\<open>--no-log\<close> is refused.
\<close>

theorem no_log_then_log_file:
  assumes "0 \<le> log_set_method env LOG_METHOD_NULL"
    and "0 \<le> log_set_method env (LOG_METHOD_FILE path)"
  shows "handle_obfsproxy_args env startup [prog, ''--no-log'', ''--log-file='' @ path] =
           Inr (startup\<lparr>logging_method := LOG_METHOD_FILE path, logfile_set := 1,
                        logsev_set := 1, argi := 3\<rparr>)
       \<and> handle_obfsproxy_args env startup [prog, ''--no-log'', ''--log-min-severity='' @ sev] =
           Inl Severity_already_set
       \<and> handle_obfsproxy_args env startup [prog, ''--no-log'', ''--no-log''] =
           Inl No_log_severity_already_set"
  using assms
  by (simp add: handle_obfsproxy_args_startup handle_arg_def strncmp_is_0_def)
     (simp add: startup_def)

theorem no_log_then_log_file_witness:
  "0 \<le> log_set_method willing LOG_METHOD_NULL
   \<and> 0 \<le> log_set_method willing (LOG_METHOD_FILE ''/tmp/x.log'')
   \<and> handle_obfsproxy_args willing startup [''obfsproxy'', ''--no-log'', ''--log-file=/tmp/x.log''] =
       Inr (startup\<lparr>logging_method := LOG_METHOD_FILE ''/tmp/x.log'', logfile_set := 1,
                    logsev_set := 1, argi := 3\<rparr>)"
proof -
  have h1: "0 \<le> log_set_method willing LOG_METHOD_NULL"
    and h2: "0 \<le> log_set_method willing (LOG_METHOD_FILE ''/tmp/x.log'')"
    by (simp_all add: willing_def)
  from no_log_then_log_file [OF h1 h2, of "''obfsproxy''"] h1 h2 show ?thesis by simp
qed

section \<open>Properties of the registry lookup\<close>

text \<open>
  C9. The lookup returns 1 exactly when some descriptor of the table carries the given
  name, compared character by character, and 0 otherwise; the empty string is found
  only if a descriptor is named by it, and a name differing in case only is not found.
\<close>

theorem is_supported_protocol_iff:
  "(is_supported_protocol ps nm = 1) = (nm \<in> set (map name ps))
   \<and> (is_supported_protocol ps nm = 0) = (nm \<notin> set (map name ps))
   \<and> (is_supported_protocol ps [] = 1) = ([] \<in> set (map name ps))
   \<and> is_supported_protocol [\<lparr>name = ''obfs2''\<rparr>] ''obfs2'' = 1
   \<and> is_supported_protocol [\<lparr>name = ''obfs2''\<rparr>] ''OBFS2'' = 0
   \<and> is_supported_protocol [\<lparr>name = ''obfs2''\<rparr>] [] = 0"
  by (induction ps) (auto simp: strcmp_is_0_def)

end
